theory Spec2Isabelle
  imports Main "HOL-Library.Word"
begin

unbundle bit_operations_syntax

section \<open>Data model\<close>

text \<open>
  The program is package \<open>main\<close> of the repository: \<open>src/main.go\<close>, lines 1 to 231, with
  the two commands \<open>base64\<close> and \<open>uuid\<close>. Line numbers below are those of that file.

  Go's \<open>[]byte\<close> is a list of 8-bit words. A Go \<open>string\<close> is a sequence of bytes too;
  it is modelled as an Isabelle \<open>string\<close>, whose characters are exactly the 256 byte
  values, and the conversion \<open>[]byte(text)\<close> of \<open>readInput\<close> is \<open>map of_char\<close>.
\<close>

type_synonym byte = "8 word"

text \<open>
  Errors. \<open>CorruptInputError n\<close> is the error of Go's \<open>encoding/base64\<close>; \<open>External\<close>
  stands for an error handed up by the operating system, the clipboard backend or the
  random source; \<open>New\<close>, \<open>Errorf\<close>, \<open>Wrap\<close> and \<open>Wrapf\<close> of package \<open>errs\<close> build the
  program's own errors: \<open>New msg\<close> carries a message, \<open>Wrap err msg\<close> a message and the
  cause. \<open>Errorf\<close> and \<open>Wrapf\<close> are \<open>New\<close> and \<open>Wrap\<close> on the formatted message.
\<close>

datatype error =
    CorruptInputError nat
  | External string
  | New string
  | Wrap error string

definition Errorf_s :: "string \<Rightarrow> string \<Rightarrow> error" where
  "Errorf_s arg suffix = New (arg @ suffix)"

definition Wrapf_s :: "error \<Rightarrow> string \<Rightarrow> string \<Rightarrow> error" where
  "Wrapf_s err prefix arg = Wrap err (prefix @ arg)"

section \<open>The base64 codec: \<open>base64.RawStdEncoding\<close>\<close>

text \<open>
  \<open>newB64Command\<close> calls \<open>base64.RawStdEncoding.AppendEncode(nil, input)\<close> and
  \<open>base64.RawStdEncoding.AppendDecode(nil, input)\<close> (main.go, lines 96 and 101). The
  codec is Go's standard library package \<open>encoding/base64\<close>, which is not part of the
  repository; the definitions of this section follow that package's \<open>NewEncoding\<close>,
  \<open>Encode\<close>, \<open>decodeQuantum\<close> and \<open>Decode\<close> for the encoding \<open>RawStdEncoding\<close>:
  alphabet \<open>encodeStd\<close>, \<open>padChar = NoPadding\<close>, \<open>strict = false\<close>.
\<close>

definition encodeStd :: string where
  "encodeStd = ''ABCDEFGHIJKLMNOPQRSTUVWXYZabcdefghijklmnopqrstuvwxyz0123456789+/''"

text \<open>\<open>enc.encode[i]\<close>: the alphabet as an array of 64 bytes.\<close>

definition encode_tab :: "64 word \<Rightarrow> byte" where
  "encode_tab i = of_char (encodeStd ! unat i)"

text \<open>
  \<open>enc.decodeMap\<close>: 256 entries, all \<open>0xFF\<close> at first; \<open>NewEncoding\<close> then stores
  \<open>uint8(i)\<close> at index \<open>encoder[i]\<close> for every position \<open>i\<close> of the alphabet.
\<close>

definition decodeMap :: "byte \<Rightarrow> byte" where
  "decodeMap =
     fold (\<lambda>i m. m(of_char (encodeStd ! i) := of_nat i)) [0..<length encodeStd] (\<lambda>_. 0xFF)"

text \<open>
  \<open>Encode\<close>: the loop over whole groups of three source bytes, then the remaining one
  or two bytes. With \<open>NoPadding\<close> no pad character is written after the remainder.
  \<open>val\<close> is Go's \<open>uint\<close>, 64 bits wide.
\<close>

fun Encode :: "byte list \<Rightarrow> byte list" where
  "Encode (a # b # c # src) =
     (let val = push_bit 16 (ucast a) OR push_bit 8 (ucast b) OR ucast c :: 64 word
      in [encode_tab (drop_bit 18 val AND 0x3F), encode_tab (drop_bit 12 val AND 0x3F),
          encode_tab (drop_bit 6 val AND 0x3F), encode_tab (val AND 0x3F)] @ Encode src)"
| "Encode [a, b] =
     (let val = push_bit 16 (ucast a) OR push_bit 8 (ucast b) :: 64 word
      in [encode_tab (drop_bit 18 val AND 0x3F), encode_tab (drop_bit 12 val AND 0x3F),
          encode_tab (drop_bit 6 val AND 0x3F)])"
| "Encode [a] =
     (let val = push_bit 16 (ucast a) :: 64 word
      in [encode_tab (drop_bit 18 val AND 0x3F), encode_tab (drop_bit 12 val AND 0x3F)])"
| "Encode [] = []"

definition AppendEncode :: "byte list \<Rightarrow> byte list" where
  "AppendEncode src = Encode src"

text \<open>
  The \<open>for j\<close> loop of \<open>decodeQuantum\<close>. \<open>dbuf\<close> holds the sextets read so far
  (\<open>j = length dbuf\<close>), \<open>si\<close> is the index in the whole input of the head of the
  remaining input. At the end of the input: nothing read gives an empty quantum, one
  sextet alone is \<open>CorruptInputError (si - j)\<close>, two or three end the quantum
  (\<open>dlen = j\<close>). A byte of the alphabet is stored; \<open>'\n'\<close> (10) and \<open>'\r'\<close> (13) are
  skipped (\<open>j--; continue\<close>); every other byte is \<open>CorruptInputError\<close> at its index,
  since no byte equals the pad character \<open>NoPadding = -1\<close>.
\<close>

fun quantum_scan ::
  "byte list \<Rightarrow> nat \<Rightarrow> byte list \<Rightarrow> error + (byte list \<times> byte list \<times> nat)" where
  "quantum_scan dbuf si [] =
     (if length dbuf = 1 then Inl (CorruptInputError (si - 1)) else Inr (dbuf, [], si))"
| "quantum_scan dbuf si (c # src) =
     (if length dbuf = 4 then Inr (dbuf, c # src, si)
      else if decodeMap c \<noteq> 0xFF then quantum_scan (dbuf @ [decodeMap c]) (si + 1) src
      else if c = 0x0A \<or> c = 0x0D then quantum_scan dbuf (si + 1) src
      else Inl (CorruptInputError si))"

text \<open>
  \<open>decodeQuantum\<close>: the scan, then the conversion of up to four sextets into
  \<open>dlen - 1\<close> bytes. The result is the decoded bytes, the remaining input and its index.
\<close>

definition decodeQuantum ::
  "nat \<Rightarrow> byte list \<Rightarrow> error + (byte list \<times> byte list \<times> nat)" where
  "decodeQuantum si src =
     (case quantum_scan [] si src of
        Inl e \<Rightarrow> Inl e
      | Inr (dbuf, rest, si') \<Rightarrow>
          (let dlen = length dbuf;
               d = dbuf @ replicate (4 - dlen) 0;
               val = push_bit 18 (ucast (d ! 0)) OR push_bit 12 (ucast (d ! 1))
                     OR push_bit 6 (ucast (d ! 2)) OR ucast (d ! 3) :: 64 word
           in Inr (take (dlen - 1)
                     [ucast (drop_bit 16 val), ucast (drop_bit 8 val), ucast val],
                   rest, si')))"

lemma quantum_scan_length:
  "quantum_scan dbuf si src = Inr (d, rest, si') \<Longrightarrow>
     length rest \<le> length src \<and> (length dbuf < 4 \<longrightarrow> src \<noteq> [] \<longrightarrow> length rest < length src)"
proof (induction dbuf si src rule: quantum_scan.induct)
  case (1 dbuf si)
  then show ?case by (simp split: if_splits)
next
  case (2 dbuf si c src)
  then show ?case by (fastforce split: if_splits)
qed

lemma decodeQuantum_shorter:
  "decodeQuantum si src = Inr (out, rest, si') \<Longrightarrow> src \<noteq> [] \<Longrightarrow> length rest < length src"
  by (auto simp: decodeQuantum_def Let_def split: sum.splits dest: quantum_scan_length)

text \<open>
  \<open>Decode\<close>: quanta are decoded until the input is used up or one of them fails. (The
  library decodes eight and four alphabet bytes at a time where it can, with the same
  result as \<open>decodeQuantum\<close> on them, and falls back to \<open>decodeQuantum\<close> otherwise.)
  \<open>AppendDecode\<close> returns the bytes decoded so far together with the error; the
  command drops them when the error is set (main.go, lines 97 to 99), so the model
  returns the error alone.
\<close>

function Decode :: "nat \<Rightarrow> byte list \<Rightarrow> error + byte list" where
  "Decode si src =
     (if src = [] then Inr []
      else case decodeQuantum si src of
             Inl e \<Rightarrow> Inl e
           | Inr (out, rest, si') \<Rightarrow>
               (case Decode si' rest of Inl e \<Rightarrow> Inl e | Inr more \<Rightarrow> Inr (out @ more)))"
  by pat_completeness auto
termination
  by (relation "measure (\<lambda>(si, src). length src)") (auto dest: decodeQuantum_shorter)

declare Decode.simps [simp del]

definition AppendDecode :: "byte list \<Rightarrow> error + byte list" where
  "AppendDecode src = Decode 0 src"

section \<open>The environment and the effects of the program\<close>

text \<open>
  What the program asks of its surroundings is a record of answers: the files that can
  be read, the state and content of standard input, the clipboard
  (\<open>clipboard.Read\<close>), whether a write fails, and the results of the UUID generators
  of package \<open>uuid\<close>. \<open>prog\<close> is \<open>os.Args[0]\<close> and \<open>args\<close> is \<open>os.Args[1:]\<close>.
  \<open>flag_Parse\<close> is \<open>flag.CommandLine.Parse\<close> followed by \<open>flag.Args()\<close>: the flag
  package either ends the process (its error handling is \<open>ExitOnError\<close>), returns an
  error, or leaves the positional arguments.
\<close>

datatype 'a parsed = ParseExit nat | ParseError error | Parsed 'a

record env =
  prog :: string
  args :: "string list"
  flag_Parse :: "string list \<Rightarrow> string list parsed"
  os_ReadFile :: "string \<Rightarrow> error + byte list"
  Stdin_Stat :: "error + 32 word"
  io_ReadAll_Stdin :: "error + byte list"
  clipboard_Read :: "error + byte list"
  os_WriteFile :: "string \<Rightarrow> byte list \<Rightarrow> error option"
  Stdout_Write :: "byte list \<Rightarrow> error option"
  uuid_MustV4PseudoString :: string
  uuid_NewV4CryptoString :: "error + string"
  uuid_MustV7PseudoString :: string

text \<open>
  What the program does to its surroundings: the sources it has read, in order, the
  files it has written, and the bytes sent to standard output and standard error.
\<close>

datatype call = CallReadFile string | CallStdinStat | CallStdinReadAll | CallClipboardRead

record world =
  calls :: "call list"
  files :: "string \<rightharpoonup> byte list"
  stdout :: "byte list"
  stderr :: string

text \<open>\<open>os.ModeCharDevice\<close> of Go's \<open>io/fs\<close>: bit 21 of the 32-bit file mode.\<close>

definition ModeCharDevice :: "32 word" where
  "ModeCharDevice = push_bit 21 1"

section \<open>\<open>readInput\<close> and \<open>writeOutput\<close>\<close>

text \<open>
  \<open>readInput\<close> (main.go, lines 153 to 189) returns its result together with the calls
  it has made to the environment.
\<close>

definition readInput :: "env \<Rightarrow> string \<Rightarrow> string \<Rightarrow> call list \<times> (error + byte list)" where
  "readInput E filePath text =
     (if text \<noteq> [] then ([], Inr (map of_char text))
      else if filePath \<noteq> [] then
        ([CallReadFile filePath],
         case os_ReadFile E filePath of
           Inl err \<Rightarrow> Inl (Wrapf_s err ''failed to read file '' filePath)
         | Inr fileContent \<Rightarrow> Inr fileContent)
      else
        (case Stdin_Stat E of
           Inl err \<Rightarrow> ([CallStdinStat], Inl (Wrap err ''failed to stat stdin''))
         | Inr mode \<Rightarrow>
             if mode AND ModeCharDevice = 0 then
               ([CallStdinStat, CallStdinReadAll],
                case io_ReadAll_Stdin E of
                  Inl err \<Rightarrow> Inl (Wrap err ''failed to read text from stdin'')
                | Inr stdinContent \<Rightarrow> Inr stdinContent)
             else
               ([CallStdinStat, CallClipboardRead],
                case clipboard_Read E of
                  Inl err \<Rightarrow> Inl (Wrap err ''failed to read clipboard content'')
                | Inr clipboardContent \<Rightarrow>
                    if length clipboardContent > 0 then Inr clipboardContent
                    else Inl (New ''no input provided''))))"

text \<open>
  \<open>writeOutput\<close> (main.go, lines 191 to 205). \<open>os.WriteFile\<close> creates or truncates the
  file, so after a successful call the file holds exactly \<open>data\<close>. A failed write
  returns at once; what a failed call leaves in the file or on standard output is not
  modelled (the world is kept as it was).
\<close>

definition writeOutput :: "env \<Rightarrow> string \<Rightarrow> byte list \<Rightarrow> world \<Rightarrow> error option \<times> world" where
  "writeOutput E filePath data w =
     (case (if filePath \<noteq> [] then os_WriteFile E filePath data else None) of
        Some err \<Rightarrow> (Some (Wrapf_s err ''failed to write data to file '' filePath), w)
      | None \<Rightarrow>
          (let w' = (if filePath \<noteq> [] then w\<lparr>files := (files w)(filePath \<mapsto> data)\<rparr> else w)
           in case Stdout_Write E data of
                Some err \<Rightarrow> (Some (Wrap err ''failed to write output to stdout''), w')
              | None \<Rightarrow> (None, w'\<lparr>stdout := stdout w' @ data\<rparr>)))"

section \<open>The commands\<close>

text \<open>
  The flag variables that the two flag sets are bound to, with their defaults. Both
  aliases of a flag write the same variable.
\<close>

record flags =
  encode :: bool
  decode :: bool
  inputFile :: string
  inputText :: string
  outputPath :: string
  v4 :: bool
  v7 :: bool
  crypto :: bool

definition default_flags :: flags where
  "default_flags = \<lparr>encode = True, decode = False, inputFile = [], inputText = [],
     outputPath = [], v4 = True, v7 = True, crypto = False\<rparr>"

text \<open>
  A command. \<open>FS\<close> is \<open>c.FS.Parse\<close>: from the command's arguments and the flag
  variables it gives the exit code if the flag package ends the process, or the flag
  variables after parsing (\<open>run\<close> drops the error that \<open>Parse\<close> returns). \<open>Run\<close> is the
  handler; it reads the flag variables. No handler looks at its context argument, which
  is left out.
\<close>

record Command =
  Name :: string
  Short :: string
  FS :: "string list \<Rightarrow> flags \<Rightarrow> nat + flags"
  Run :: "flags \<Rightarrow> env \<Rightarrow> world \<Rightarrow> error option \<times> world"

text \<open>
  The conversion of the base64 command (main.go, lines 94 to 102): \<open>output\<close> is
  declared \<open>nil\<close> and assigned in the decode and the encode branch only.
\<close>

definition b64_output :: "flags \<Rightarrow> byte list \<Rightarrow> error + byte list" where
  "b64_output F input =
     (if decode F then
        (case AppendDecode input of
           Inl err \<Rightarrow> Inl (Wrap err ''failed to encode content'')
         | Inr output \<Rightarrow> Inr output)
      else if encode F then Inr (AppendEncode input)
      else Inr [])"

definition b64_Run :: "flags \<Rightarrow> env \<Rightarrow> world \<Rightarrow> error option \<times> world" where
  "b64_Run F E w =
     (case readInput E (inputFile F) (inputText F) of
        (cs, Inl err) \<Rightarrow> (Some err, w\<lparr>calls := calls w @ cs\<rparr>)
      | (cs, Inr input) \<Rightarrow>
          (case b64_output F input of
             Inl err \<Rightarrow> (Some err, w\<lparr>calls := calls w @ cs\<rparr>)
           | Inr output \<Rightarrow> writeOutput E (outputPath F) output (w\<lparr>calls := calls w @ cs\<rparr>)))"

definition newB64Command :: "(string \<Rightarrow> string list \<Rightarrow> flags \<Rightarrow> nat + flags) \<Rightarrow> Command" where
  "newB64Command parse =
     \<lparr>Name = ''base64'', Short = ''b64'', FS = parse ''base64'', Run = b64_Run\<rparr>"

text \<open>
  The generator that the uuid command calls (main.go, lines 129 to 138): the first
  case of the \<open>switch\<close> that holds; with no case \<open>output\<close> stays empty.
\<close>

definition uuid_generate :: "flags \<Rightarrow> env \<Rightarrow> error + string" where
  "uuid_generate F E =
     (if v4 F \<and> \<not> crypto F then Inr (uuid_MustV4PseudoString E)
      else if v4 F \<and> crypto F then uuid_NewV4CryptoString E
      else if v7 F \<and> \<not> crypto F then Inr (uuid_MustV7PseudoString E)
      else if v7 F \<and> crypto F then uuid_NewV4CryptoString E
      else Inr [])"

definition uuid_Run :: "flags \<Rightarrow> env \<Rightarrow> world \<Rightarrow> error option \<times> world" where
  "uuid_Run F E w =
     (case uuid_generate F E of
        Inl err \<Rightarrow> (Some err, w)
      | Inr output \<Rightarrow> writeOutput E [] (map of_char output) w)"

definition newUuidCommand :: "(string \<Rightarrow> string list \<Rightarrow> flags \<Rightarrow> nat + flags) \<Rightarrow> Command" where
  "newUuidCommand parse =
     \<lparr>Name = ''uuid'', Short = ''b64'', FS = parse ''uuid'', Run = uuid_Run\<rparr>"

section \<open>The dispatcher\<close>

text \<open>
  The loop of \<open>run\<close> (main.go, lines 45 to 52): the first command whose name or short
  name is \<open>cmdName\<close> parses the arguments and runs; with none the error is
  \<open>cmdName is unknown command\<close>. The result is \<open>Inl code\<close> when the flag package
  ended the process, \<open>Inr\<close> of what \<open>run\<close> returns otherwise.
\<close>

fun run_loop ::
  "Command list \<Rightarrow> string \<Rightarrow> string list \<Rightarrow> flags \<Rightarrow> env \<Rightarrow> world
     \<Rightarrow> (nat + error option) \<times> world" where
  "run_loop [] cmdName cmdArgs F E w =
     (Inr (Some (Errorf_s cmdName '' is unknown command'')), w)"
| "run_loop (c # cmds) cmdName cmdArgs F E w =
     (if Name c = cmdName \<or> Short c = cmdName then
        (case FS c cmdArgs F of
           Inl code \<Rightarrow> (Inl code, w)
         | Inr F' \<Rightarrow> (case Run c F' E w of (r, w') \<Rightarrow> (Inr r, w')))
      else run_loop cmds cmdName cmdArgs F E w)"

definition run :: "Command list \<Rightarrow> flags \<Rightarrow> env \<Rightarrow> world \<Rightarrow> (nat + error option) \<times> world" where
  "run cmds F E w =
     (case flag_Parse E (args E) of
        ParseExit code \<Rightarrow> (Inl code, w)
      | ParseError err \<Rightarrow> (Inr (Some (Wrap err ''failed to pass cmdArgs'')), w)
      | Parsed rest \<Rightarrow>
          (if length rest = 0 then (Inr (Some (New ''could't figure out command'')), w)
           else run_loop cmds (hd rest) (tl rest) F E w))"

text \<open>
  \<open>err.Error()\<close>: the message of an error, a wrapped one as \<open>message: cause\<close>. The
  stack trace that package \<open>errs\<close> records with an error is not modelled.
\<close>

fun digits :: "nat \<Rightarrow> nat \<Rightarrow> string" where
  "digits 0 n = []"
| "digits (Suc k) n =
     (if n < 10 then [char_of (48 + n)] else digits k (n div 10) @ [char_of (48 + n mod 10)])"

fun Error :: "error \<Rightarrow> string" where
  "Error (CorruptInputError n) = ''illegal base64 data at input byte '' @ digits (Suc n) n"
| "Error (External msg) = msg"
| "Error (New msg) = msg"
| "Error (Wrap err msg) = msg @ '': '' @ Error err"

text \<open>
  \<open>usage\<close> (main.go, lines 55 to 66): what it prints to standard error. No global flag
  is defined, so \<open>flag.PrintDefaults\<close> prints nothing.
\<close>

definition usage :: "error \<Rightarrow> Command list \<Rightarrow> string \<Rightarrow> string" where
  "usage err cmds p =
     Error err @ [CHR 0x0A] @ ''Usage:'' @ [CHR 0x0A]
     @ p @ '' [global flags] <command> [flags]'' @ [CHR 0x0A, CHR 0x0A]
     @ ''Global flags:'' @ [CHR 0x0A]
     @ [CHR 0x0A] @ ''Commands:'' @ [CHR 0x0A]
     @ concat (map (\<lambda>c. ''  -'' @ Name c @ '' (or -'' @ Short c @ '')'' @ [CHR 0x0A]) cmds)
     @ [CHR 0x0A] @ ''Run '' @ [CHR 0x27] @ p @ '' <command> -h'' @ [CHR 0x27] @ '' for details.''"

text \<open>
  \<open>main\<close> (main.go, lines 18 to 31): the exit code of the process and the world it
  leaves. A returned error is printed with the usage and the process exits with 2.
\<close>

definition main ::
  "(string \<Rightarrow> string list \<Rightarrow> flags \<Rightarrow> nat + flags) \<Rightarrow> env \<Rightarrow> world \<Rightarrow> nat \<times> world" where
  "main parse E w =
     (let cmds = [newB64Command parse, newUuidCommand parse]
      in case run cmds default_flags E w of
           (Inl code, w') \<Rightarrow> (code, w')
         | (Inr None, w') \<Rightarrow> (0, w')
         | (Inr (Some err), w') \<Rightarrow> (2, w'\<lparr>stderr := stderr w' @ usage err cmds (prog E)\<rparr>))"

section \<open>An example environment\<close>

text \<open>
  A concrete environment, flag parser and initial world, on which the theorems below are
  instantiated. The parser knows the argument lists \<open>-t x\<close> and \<open>-d -t x\<close> only and
  ends the process with code 2 on any other; standard input is a terminal, the
  clipboard is empty, the file \<open>in.txt\<close> holds \<open>hi\<close>, and writing to \<open>/\<close> fails.
\<close>

definition example_parse :: "string \<Rightarrow> string list \<Rightarrow> flags \<Rightarrow> nat + flags" where
  "example_parse name cmdArgs F =
     (if cmdArgs = [] then Inr F
      else if length cmdArgs = 2 \<and> cmdArgs ! 0 = ''-t'' then Inr (F\<lparr>inputText := cmdArgs ! 1\<rparr>)
      else if length cmdArgs = 3 \<and> cmdArgs ! 0 = ''-d'' \<and> cmdArgs ! 1 = ''-t''
        then Inr (F\<lparr>decode := True, inputText := cmdArgs ! 2\<rparr>)
      else Inl 2)"

definition example_env :: env where
  "example_env =
     \<lparr>prog = ''dev-tools'', args = [], flag_Parse = Parsed,
      os_ReadFile = (\<lambda>p. if p = ''in.txt'' then Inr [0x68, 0x69]
                         else Inl (External ''no such file or directory'')),
      Stdin_Stat = Inr ModeCharDevice,
      io_ReadAll_Stdin = Inr [0x51, 0x51, 0x0A],
      clipboard_Read = Inr [],
      os_WriteFile = (\<lambda>p d. if p = ''/'' then Some (External ''is a directory'') else None),
      Stdout_Write = (\<lambda>d. None),
      uuid_MustV4PseudoString = ''2c1e5a3c-8f0b-4d6e-9a57-3b1f0c7d2e44'',
      uuid_NewV4CryptoString = Inr ''f47ac10b-58cc-4372-a567-0e02b2c3d479'',
      uuid_MustV7PseudoString = ''018f4e2a-7b3c-7d10-8a4e-5c2f9b6d1e03''\<rparr>"

definition empty_world :: world where
  "empty_world = \<lparr>calls = [], files = Map.empty, stdout = [], stderr = []\<rparr>"

section \<open>Vocabulary of the properties\<close>

text \<open>A byte that the decoder neither stores nor skips.\<close>

definition rejected :: "byte \<Rightarrow> bool" where
  "rejected c \<longleftrightarrow> decodeMap c = 0xFF \<and> c \<noteq> 0x0A \<and> c \<noteq> 0x0D"

text \<open>An input without its line feeds and carriage returns.\<close>

definition strip_newlines :: "byte list \<Rightarrow> byte list" where
  "strip_newlines src = filter (\<lambda>c. c \<noteq> 0x0A \<and> c \<noteq> 0x0D) src"

text \<open>The number of bytes of an input that are not line breaks.\<close>

definition significant :: "byte list \<Rightarrow> nat" where
  "significant src = length (filter (\<lambda>c. c \<noteq> 0x0A \<and> c \<noteq> 0x0D) src)"

section \<open>Facts about the codec\<close>

lemma mask6: "(0x3F :: 64 word) = mask 6"
  by (simp add: mask_eq_exp_minus_1)

lemma sextet_less: "unat (x AND 0x3F :: 64 word) < 64"
proof -
  have "x AND 0x3F \<le> 0x3F" by (rule word_and_le1)
  then show ?thesis by (simp add: word_le_nat_alt)
qed

lemma fold_upd_other:
  "c \<notin> f ` set js \<Longrightarrow> fold (\<lambda>i m. m(f i := g i)) js m c = m c"
  by (induction js arbitrary: m) auto

lemma fold_upd_hit:
  "distinct (map f js) \<Longrightarrow> i \<in> set js \<Longrightarrow> fold (\<lambda>i m. m(f i := g i)) js m (f i) = g i"
proof (induction js arbitrary: m)
  case Nil
  then show ?case by simp
next
  case (Cons j js)
  show ?case
  proof (cases "i = j")
    case True
    from Cons.prems have "f j \<notin> f ` set js" by auto
    then have "fold (\<lambda>i m. m(f i := g i)) js (m(f j := g j)) (f j) = (m(f j := g j)) (f j)"
      by (rule fold_upd_other)
    then show ?thesis using True by (simp add: fun_upd_same del: fun_upd_apply)
  next
    case False
    then show ?thesis using Cons by (simp del: fun_upd_apply)
  qed
qed

lemma length_encodeStd: "length encodeStd = 64"
  by (simp add: encodeStd_def)

lemma map_nth_upt: "map (\<lambda>i. f (xs ! i)) [0..<length xs] = map f xs"
  by (rule nth_equalityI) simp_all

lemma alphabet_bytes:
  "map (\<lambda>i. of_char (encodeStd ! i) :: byte) [0..<length encodeStd] = map of_char encodeStd"
  by (rule map_nth_upt)

lemma distinct_alphabet: "distinct (map of_char encodeStd :: byte list)"
  by (simp add: encodeStd_def)

lemma decodeMap_alphabet:
  assumes "i < 64"
  shows "decodeMap (of_char (encodeStd ! i)) = of_nat i"
proof -
  have "distinct (map (\<lambda>i. of_char (encodeStd ! i) :: byte) [0..<length encodeStd])"
    by (simp only: alphabet_bytes distinct_alphabet)
  moreover have "i \<in> set [0..<length encodeStd]"
    using assms by (simp add: length_encodeStd)
  ultimately show ?thesis
    unfolding decodeMap_def by (rule fold_upd_hit)
qed

lemma decodeMap_outside:
  assumes "c \<notin> set (map of_char encodeStd)"
  shows "decodeMap c = 0xFF"
proof -
  have "set (map of_char encodeStd :: byte list) = (\<lambda>i. of_char (encodeStd ! i)) ` set [0..<length encodeStd]"
    by (simp only: alphabet_bytes [symmetric] set_map)
  with assms show ?thesis
    unfolding decodeMap_def by (simp add: fold_upd_other)
qed

lemma decodeMap_encode_tab:
  "decodeMap (encode_tab (x AND 0x3F)) = ucast (x AND 0x3F :: 64 word)"
  unfolding encode_tab_def
  by (simp add: decodeMap_alphabet [OF sextet_less])

lemma sextet_byte_not_FF: "(ucast (x AND 0x3F :: 64 word) :: byte) \<noteq> 0xFF"
proof
  assume "(ucast (x AND 0x3F :: 64 word) :: byte) = 0xFF"
  then have "bit (ucast (x AND mask 6 :: 64 word) :: byte) 7 = bit (0xFF :: byte) 7"
    by (simp add: mask6)
  then show False by (simp add: bit_simps)
qed

lemma ucast_sextet: "(ucast (ucast (x AND 0x3F :: 64 word) :: byte) :: 64 word) = x AND 0x3F"
  unfolding mask6
  by (rule bit_word_eqI; simp add: bit_simps; auto)

lemma quantum_scan_full: "length dbuf = 4 \<Longrightarrow> quantum_scan dbuf si src = Inr (dbuf, src, si)"
  by (cases src) simp_all

lemma quantum_scan_sextet:
  "length dbuf < 4 \<Longrightarrow>
   quantum_scan dbuf si (encode_tab (x AND 0x3F) # src) =
   quantum_scan (dbuf @ [ucast (x AND 0x3F)]) (si + 1) src"
  by (simp add: decodeMap_encode_tab sextet_byte_not_FF)

lemma quantum_scan_4:
  "quantum_scan [] si (encode_tab (w AND 0x3F) # encode_tab (x AND 0x3F)
            # encode_tab (y AND 0x3F) # encode_tab (z AND 0x3F) # src)
   = Inr ([ucast (w AND 0x3F), ucast (x AND 0x3F), ucast (y AND 0x3F), ucast (z AND 0x3F)], src, si + 4)"
  by (simp add: quantum_scan_sextet quantum_scan_full del: quantum_scan.simps)

lemma quantum_scan_3:
  "quantum_scan [] si [encode_tab (w AND 0x3F), encode_tab (x AND 0x3F), encode_tab (y AND 0x3F)]
   = Inr ([ucast (w AND 0x3F), ucast (x AND 0x3F), ucast (y AND 0x3F)], [], si + 3)"
  by (simp add: quantum_scan_sextet del: quantum_scan.simps(2))

lemma quantum_scan_2:
  "quantum_scan [] si [encode_tab (w AND 0x3F), encode_tab (x AND 0x3F)]
   = Inr ([ucast (w AND 0x3F), ucast (x AND 0x3F)], [], si + 2)"
  by (simp add: quantum_scan_sextet del: quantum_scan.simps(2))

text \<open>The conversion step of \<open>decodeQuantum\<close> once the scan is known.\<close>

lemma decodeQuantum_scanned4:
  assumes "quantum_scan [] si src = Inr ([d0, d1, d2, d3], rest, si')"
  shows "decodeQuantum si src =
     Inr ([ucast (drop_bit 16 (push_bit 18 (ucast d0) OR push_bit 12 (ucast d1)
                    OR push_bit 6 (ucast d2) OR (ucast d3 :: 64 word))),
           ucast (drop_bit 8 (push_bit 18 (ucast d0) OR push_bit 12 (ucast d1)
                    OR push_bit 6 (ucast d2) OR (ucast d3 :: 64 word))),
           ucast (push_bit 18 (ucast d0) OR push_bit 12 (ucast d1)
                    OR push_bit 6 (ucast d2) OR (ucast d3 :: 64 word))], rest, si')"
  unfolding decodeQuantum_def assms by (simp add: Let_def)

lemma decodeQuantum_scanned3:
  assumes "quantum_scan [] si src = Inr ([d0, d1, d2], rest, si')"
  shows "decodeQuantum si src =
     Inr ([ucast (drop_bit 16 (push_bit 18 (ucast d0) OR push_bit 12 (ucast d1)
                    OR (push_bit 6 (ucast d2) :: 64 word))),
           ucast (drop_bit 8 (push_bit 18 (ucast d0) OR push_bit 12 (ucast d1)
                    OR (push_bit 6 (ucast d2) :: 64 word)))], rest, si')"
  unfolding decodeQuantum_def assms by (simp add: Let_def)

lemma decodeQuantum_scanned2:
  assumes "quantum_scan [] si src = Inr ([d0, d1], rest, si')"
  shows "decodeQuantum si src =
     Inr ([ucast (drop_bit 16 (push_bit 18 (ucast d0) OR (push_bit 12 (ucast d1) :: 64 word)))],
          rest, si')"
  unfolding decodeQuantum_def assms by (simp add: Let_def)

text \<open>Bit-level facts: the sextets of a 24-bit group put back together.\<close>

lemma hi4:
  fixes val :: "64 word"
  shows "(ucast (drop_bit 16 (push_bit 18 (drop_bit 18 val AND 0x3F)
            OR push_bit 12 (drop_bit 12 val AND 0x3F)
            OR push_bit 6 (drop_bit 6 val AND 0x3F) OR (val AND 0x3F))) :: byte)
         = ucast (drop_bit 16 val)"
  unfolding mask6
proof (rule bit_word_eqI)
  fix n :: nat
  assume "n < LENGTH(8)"
  then consider "n < 2" | "2 \<le> n" "n < 8"
    by fastforce
  then show "bit (ucast (drop_bit 16 (push_bit 18 (drop_bit 18 val AND mask 6)
            OR push_bit 12 (drop_bit 12 val AND mask 6)
            OR push_bit 6 (drop_bit 6 val AND mask 6) OR (val AND mask 6))) :: byte) n
         = bit (ucast (drop_bit 16 val) :: byte) n"
    by cases (auto simp add: bit_simps)
qed

lemma hi3:
  fixes val :: "64 word"
  shows "(ucast (drop_bit 16 (push_bit 18 (drop_bit 18 val AND 0x3F)
            OR push_bit 12 (drop_bit 12 val AND 0x3F)
            OR push_bit 6 (drop_bit 6 val AND 0x3F))) :: byte)
         = ucast (drop_bit 16 val)"
  unfolding mask6
proof (rule bit_word_eqI)
  fix n :: nat
  assume "n < LENGTH(8)"
  then consider "n < 2" | "2 \<le> n" "n < 8"
    by fastforce
  then show "bit (ucast (drop_bit 16 (push_bit 18 (drop_bit 18 val AND mask 6)
            OR push_bit 12 (drop_bit 12 val AND mask 6)
            OR push_bit 6 (drop_bit 6 val AND mask 6))) :: byte) n
         = bit (ucast (drop_bit 16 val) :: byte) n"
    by cases (auto simp add: bit_simps)
qed

lemma hi2:
  fixes val :: "64 word"
  shows "(ucast (drop_bit 16 (push_bit 18 (drop_bit 18 val AND 0x3F)
            OR push_bit 12 (drop_bit 12 val AND 0x3F))) :: byte)
         = ucast (drop_bit 16 val)"
  unfolding mask6
proof (rule bit_word_eqI)
  fix n :: nat
  assume "n < LENGTH(8)"
  then consider "n < 2" | "2 \<le> n" "n < 8"
    by fastforce
  then show "bit (ucast (drop_bit 16 (push_bit 18 (drop_bit 18 val AND mask 6)
            OR push_bit 12 (drop_bit 12 val AND mask 6))) :: byte) n
         = bit (ucast (drop_bit 16 val) :: byte) n"
    by cases (auto simp add: bit_simps)
qed

lemma mid4:
  fixes val :: "64 word"
  shows "(ucast (drop_bit 8 (push_bit 18 (drop_bit 18 val AND 0x3F)
            OR push_bit 12 (drop_bit 12 val AND 0x3F)
            OR push_bit 6 (drop_bit 6 val AND 0x3F) OR (val AND 0x3F))) :: byte)
         = ucast (drop_bit 8 val)"
  unfolding mask6
proof (rule bit_word_eqI)
  fix n :: nat
  assume "n < LENGTH(8)"
  then consider "n < 4" | "4 \<le> n" "n < 8"
    by fastforce
  then show "bit (ucast (drop_bit 8 (push_bit 18 (drop_bit 18 val AND mask 6)
            OR push_bit 12 (drop_bit 12 val AND mask 6)
            OR push_bit 6 (drop_bit 6 val AND mask 6) OR (val AND mask 6))) :: byte) n
         = bit (ucast (drop_bit 8 val) :: byte) n"
    by cases (auto simp add: bit_simps)
qed

lemma mid3:
  fixes val :: "64 word"
  shows "(ucast (drop_bit 8 (push_bit 18 (drop_bit 18 val AND 0x3F)
            OR push_bit 12 (drop_bit 12 val AND 0x3F)
            OR push_bit 6 (drop_bit 6 val AND 0x3F))) :: byte)
         = ucast (drop_bit 8 val)"
  unfolding mask6
proof (rule bit_word_eqI)
  fix n :: nat
  assume "n < LENGTH(8)"
  then consider "n < 4" | "4 \<le> n" "n < 8"
    by fastforce
  then show "bit (ucast (drop_bit 8 (push_bit 18 (drop_bit 18 val AND mask 6)
            OR push_bit 12 (drop_bit 12 val AND mask 6)
            OR push_bit 6 (drop_bit 6 val AND mask 6))) :: byte) n
         = bit (ucast (drop_bit 8 val) :: byte) n"
    by cases (auto simp add: bit_simps)
qed

lemma lo4:
  fixes val :: "64 word"
  shows "(ucast (push_bit 18 (drop_bit 18 val AND 0x3F)
            OR push_bit 12 (drop_bit 12 val AND 0x3F)
            OR push_bit 6 (drop_bit 6 val AND 0x3F) OR (val AND 0x3F)) :: byte)
         = ucast val"
  unfolding mask6
proof (rule bit_word_eqI)
  fix n :: nat
  assume "n < LENGTH(8)"
  then consider "n < 6" | "6 \<le> n" "n < 8"
    by fastforce
  then show "bit (ucast (push_bit 18 (drop_bit 18 val AND mask 6)
            OR push_bit 12 (drop_bit 12 val AND mask 6)
            OR push_bit 6 (drop_bit 6 val AND mask 6) OR (val AND mask 6)) :: byte) n
         = bit (ucast val :: byte) n"
    by cases (auto simp add: bit_simps)
qed

lemma bytes_of_val3:
  fixes a b c :: byte
  shows "(ucast (drop_bit 16 (push_bit 16 (ucast a) OR push_bit 8 (ucast b) OR (ucast c :: 64 word))) :: byte) = a"
    "(ucast (drop_bit 8 (push_bit 16 (ucast a) OR push_bit 8 (ucast b) OR (ucast c :: 64 word))) :: byte) = b"
    "(ucast (push_bit 16 (ucast a) OR push_bit 8 (ucast b) OR (ucast c :: 64 word)) :: byte) = c"
  by (rule bit_word_eqI; simp add: bit_simps; auto simp: not_less not_le dest: bit_imp_le_length)+

lemma bytes_of_val2:
  fixes a b :: byte
  shows "(ucast (drop_bit 16 (push_bit 16 (ucast a) OR (push_bit 8 (ucast b) :: 64 word))) :: byte) = a"
    "(ucast (drop_bit 8 (push_bit 16 (ucast a) OR (push_bit 8 (ucast b) :: 64 word))) :: byte) = b"
  by (rule bit_word_eqI; simp add: bit_simps; auto simp: not_less not_le dest: bit_imp_le_length)+

lemma bytes_of_val1:
  fixes a :: byte
  shows "(ucast (drop_bit 16 (push_bit 16 (ucast a) :: 64 word)) :: byte) = a"
  by (rule bit_word_eqI; simp add: bit_simps)

lemma decodeQuantum_Encode3:
  "decodeQuantum si (Encode (a # b # c # src)) = Inr ([a, b, c], Encode src, si + 4)"
proof -
  define val :: "64 word" where "val = push_bit 16 (ucast a) OR push_bit 8 (ucast b) OR ucast c"
  have enc: "Encode (a # b # c # src) =
      encode_tab (drop_bit 18 val AND 0x3F) # encode_tab (drop_bit 12 val AND 0x3F)
      # encode_tab (drop_bit 6 val AND 0x3F) # encode_tab (val AND 0x3F) # Encode src"
    by (simp only: Encode.simps Let_def val_def append_Cons append_Nil)
  show ?thesis
    unfolding enc decodeQuantum_scanned4 [OF quantum_scan_4] ucast_sextet hi4 mid4 lo4
    unfolding val_def bytes_of_val3 by (rule refl)
qed

lemma decodeQuantum_Encode2:
  "decodeQuantum si (Encode [a, b]) = Inr ([a, b], [], si + 3)"
proof -
  define val :: "64 word" where "val = push_bit 16 (ucast a) OR push_bit 8 (ucast b)"
  have enc: "Encode [a, b] =
      [encode_tab (drop_bit 18 val AND 0x3F), encode_tab (drop_bit 12 val AND 0x3F),
       encode_tab (drop_bit 6 val AND 0x3F)]"
    by (simp only: Encode.simps Let_def val_def)
  show ?thesis
    unfolding enc decodeQuantum_scanned3 [OF quantum_scan_3] ucast_sextet hi3 mid3
    unfolding val_def bytes_of_val2 by (rule refl)
qed

lemma decodeQuantum_Encode1:
  "decodeQuantum si (Encode [a]) = Inr ([a], [], si + 2)"
proof -
  define val :: "64 word" where "val = push_bit 16 (ucast a)"
  have enc: "Encode [a] =
      [encode_tab (drop_bit 18 val AND 0x3F), encode_tab (drop_bit 12 val AND 0x3F)]"
    by (simp only: Encode.simps Let_def val_def)
  show ?thesis
    unfolding enc decodeQuantum_scanned2 [OF quantum_scan_2] ucast_sextet hi2
    unfolding val_def bytes_of_val1 by (rule refl)
qed

lemma Encode_nonempty: "src \<noteq> [] \<Longrightarrow> Encode src \<noteq> []"
  by (induction src rule: Encode.induct) (simp_all add: Let_def)

lemma Decode_Encode: "Decode si (Encode src) = Inr src"
proof (induction src arbitrary: si rule: Encode.induct)
  case (1 a b c src)
  have ne: "Encode (a # b # c # src) \<noteq> []"
    by (rule Encode_nonempty) simp
  show ?case
    by (subst Decode.simps) (simp only: ne if_False decodeQuantum_Encode3 sum.case prod.case "1.IH" append_Cons append_Nil)
next
  case (2 a b)
  have ne: "Encode [a, b] \<noteq> []"
    by (rule Encode_nonempty) simp
  have e: "Decode (si + 3) [] = Inr []"
    by (simp add: Decode.simps)
  show ?case
    by (subst Decode.simps) (simp only: ne if_False decodeQuantum_Encode2 sum.case prod.case e append_Cons append_Nil)
next
  case (3 a)
  have ne: "Encode [a] \<noteq> []"
    by (rule Encode_nonempty) simp
  have e: "Decode (si + 2) [] = Inr []"
    by (simp add: Decode.simps)
  show ?case
    by (subst Decode.simps) (simp only: ne if_False decodeQuantum_Encode1 sum.case prod.case e append_Cons append_Nil)
next
  case 4
  show ?case by (simp add: Decode.simps)
qed


lemma encode_tab_alphabet: "encode_tab (x AND 0x3F) \<in> set (map of_char encodeStd)"
  unfolding encode_tab_def set_map
  by (rule imageI, rule nth_mem) (simp add: length_encodeStd sextet_less)

lemma Encode_alphabet: "set (Encode src) \<subseteq> set (map of_char encodeStd)"
  by (induction src rule: Encode.induct) (simp_all add: Let_def encode_tab_alphabet del: set_map)

lemma pad_not_alphabet: "(0x3D :: byte) \<notin> set (map of_char encodeStd)"
  by (simp add: encodeStd_def)

lemma newline_not_alphabet:
  "(0x0A :: byte) \<notin> set (map of_char encodeStd)"
  "(0x0D :: byte) \<notin> set (map of_char encodeStd)"
  by (simp_all add: encodeStd_def)

lemma decodeMap_newline: "decodeMap 0x0A = 0xFF" "decodeMap 0x0D = 0xFF"
  by (simp_all only: decodeMap_outside [OF newline_not_alphabet(1)]
      decodeMap_outside [OF newline_not_alphabet(2)])

lemma outside_rejected:
  "c \<notin> set (map of_char encodeStd) \<Longrightarrow> c \<noteq> 0x0A \<Longrightarrow> c \<noteq> 0x0D \<Longrightarrow> rejected c"
  by (simp add: rejected_def decodeMap_outside)

lemma quantum_scan_rejected:
  "quantum_scan dbuf si src = Inr (d, rest, si') \<Longrightarrow> \<exists>c\<in>set src. rejected c
     \<Longrightarrow> \<exists>c\<in>set rest. rejected c"
proof (induction dbuf si src rule: quantum_scan.induct)
  case (1 dbuf si)
  then show ?case by simp
next
  case (2 dbuf si c src)
  show ?case
  proof (cases "length dbuf = 4")
    case True
    with 2 show ?thesis by simp
  next
    case False
    show ?thesis
    proof (cases "decodeMap c \<noteq> 0xFF")
      case True
      with False 2 show ?thesis by (auto simp: rejected_def)
    next
      case dm: False
      show ?thesis
      proof (cases "c = 0x0A \<or> c = 0x0D")
        case True
        with False dm 2 show ?thesis by (auto simp: rejected_def)
      next
        case nl: False
        with False dm 2 show ?thesis by simp
      qed
    qed
  qed
qed

lemma decodeQuantum_rest:
  "decodeQuantum si src = Inr (out, rest, si') \<Longrightarrow>
     \<exists>d. quantum_scan [] si src = Inr (d, rest, si')"
  by (auto simp: decodeQuantum_def Let_def split: sum.splits)

lemma Decode_rejected: "\<exists>c\<in>set src. rejected c \<Longrightarrow> \<exists>e. Decode si src = Inl e"
proof (induction si src rule: Decode.induct)
  case (1 si src)
  then have ne: "src \<noteq> []" by auto
  show ?case
  proof (cases "decodeQuantum si src")
    case (Inl e)
    with ne show ?thesis by (simp add: Decode.simps [of si src])
  next
    case (Inr r)
    obtain out rest si' where r: "r = (out, rest, si')" by (cases r)
    from Inr r decodeQuantum_rest obtain d where scan: "quantum_scan [] si src = Inr (d, rest, si')"
      by blast
    from scan "1.prems" have "\<exists>c\<in>set rest. rejected c" by (rule quantum_scan_rejected)
    with "1.IH" [OF ne Inr r [symmetric] refl] obtain e where "Decode si' rest = Inl e"
      by blast
    with ne Inr r show ?thesis by (simp add: Decode.simps [of si src])
  qed
qed

lemma quantum_scan_count:
  "quantum_scan dbuf si src = Inr (d, rest, si') \<Longrightarrow> length dbuf \<le> 4 \<Longrightarrow> length dbuf \<noteq> 1 \<or> src \<noteq> [] \<Longrightarrow>
     length d + significant rest = length dbuf + significant src
     \<and> length d \<le> 4 \<and> (length d < 4 \<longrightarrow> rest = []) \<and> length d \<noteq> 1"
proof (induction dbuf si src arbitrary: rule: quantum_scan.induct)
  case (1 dbuf si)
  then show ?case by (auto split: if_splits)
next
  case (2 dbuf si c src)
  show ?case
  proof (cases "length dbuf = 4")
    case True
    with 2 show ?thesis by auto
  next
    case False
    show ?thesis
    proof (cases "decodeMap c \<noteq> 0xFF")
      case True
      then have "c \<noteq> 0x0A" "c \<noteq> 0x0D" using decodeMap_newline by auto
      then have s: "significant (c # src) = Suc (significant src)" by (simp add: significant_def)
      from True False "2.prems" have scan: "quantum_scan (dbuf @ [decodeMap c]) (si + 1) src = Inr (d, rest, si')"
        by simp
      show ?thesis
      proof (cases "src = [] \<and> length dbuf = 0")
        case True
        with scan show ?thesis by simp
      next
        case F2: False
        have "length (dbuf @ [decodeMap c]) \<le> 4" using False "2.prems" by simp
        moreover have "length (dbuf @ [decodeMap c]) \<noteq> 1 \<or> src \<noteq> []" using F2 by auto
        ultimately show ?thesis using "2.IH"(1) [OF False True scan] s by simp
      qed
    next
      case dm: False
      show ?thesis
      proof (cases "c = 0x0A \<or> c = 0x0D")
        case True
        then have s: "significant (c # src) = significant src" by (auto simp add: significant_def)
        from True False dm "2.prems" have scan: "quantum_scan dbuf (si + 1) src = Inr (d, rest, si')"
          by simp
        show ?thesis
        proof (cases "length dbuf = 1 \<and> src = []")
          case True
          with scan show ?thesis by simp
        next
          case F2: False
          then have "length dbuf \<noteq> 1 \<or> src \<noteq> []" by auto
          with "2.IH"(2) [OF False _ True scan] dm "2.prems" s show ?thesis by simp
        qed
      next
        case nl: False
        with False dm 2 show ?thesis by simp
      qed
    qed
  qed
qed

lemma Decode_count: "significant src mod 4 = 1 \<Longrightarrow> \<exists>e. Decode si src = Inl e"
proof (induction si src rule: Decode.induct)
  case (1 si src)
  then have ne: "src \<noteq> []" by (auto simp: significant_def)
  show ?case
  proof (cases "decodeQuantum si src")
    case (Inl e)
    with ne show ?thesis by (simp add: Decode.simps [of si src])
  next
    case (Inr r)
    obtain out rest si' where r: "r = (out, rest, si')" by (cases r)
    from Inr r decodeQuantum_rest obtain d where scan: "quantum_scan [] si src = Inr (d, rest, si')"
      by blast
    from quantum_scan_count [OF scan] ne
    have c: "length d + significant rest = significant src" "length d \<le> 4"
      "length d < 4 \<longrightarrow> rest = []" "length d \<noteq> 1"
      by simp_all
    have "length d = 4"
    proof (rule ccontr)
      assume "length d \<noteq> 4"
      with c have "rest = []" "length d < 4" by auto
      with c(1) have "significant src = length d" by (simp add: significant_def)
      with "1.prems" \<open>length d < 4\<close> c(4) show False by simp
    qed
    with c(1) have "significant src = 4 + significant rest" by simp
    with "1.prems" have "significant rest mod 4 = 1" by simp
    with "1.IH" [OF ne Inr r [symmetric] refl] obtain e where "Decode si' rest = Inl e"
      by blast
    with ne Inr r show ?thesis by (simp add: Decode.simps [of si src])
  qed
qed

lemma strip_newlines_simps:
  "strip_newlines [] = []"
  "strip_newlines (c # src) = (if c = 0x0A \<or> c = 0x0D then strip_newlines src else c # strip_newlines src)"
  by (auto simp: strip_newlines_def)

lemma quantum_scan_strip_Inr:
  "quantum_scan dbuf si src = Inr (d, rest, si') \<Longrightarrow>
     \<exists>sj'. quantum_scan dbuf sj (strip_newlines src) = Inr (d, strip_newlines rest, sj')"
proof (induction dbuf si src arbitrary: sj rule: quantum_scan.induct)
  case (1 dbuf si)
  then show ?case by (auto simp: strip_newlines_simps split: if_splits)
next
  case (2 dbuf si c src)
  show ?case
  proof (cases "length dbuf = 4")
    case True
    with "2.prems" have "d = dbuf" "rest = c # src" by auto
    with True show ?thesis by (simp add: quantum_scan_full)
  next
    case False
    show ?thesis
    proof (cases "decodeMap c \<noteq> 0xFF")
      case True
      then have nn: "c \<noteq> 0x0A" "c \<noteq> 0x0D" using decodeMap_newline by auto
      from True False "2.prems"
      have "quantum_scan (dbuf @ [decodeMap c]) (si + 1) src = Inr (d, rest, si')" by simp
      from "2.IH"(1) [OF False True this, of "sj + 1"] nn True False
      show ?thesis by (simp add: strip_newlines_simps)
    next
      case dm: False
      show ?thesis
      proof (cases "c = 0x0A \<or> c = 0x0D")
        case True
        with False dm "2.prems" have "quantum_scan dbuf (si + 1) src = Inr (d, rest, si')" by simp
        from "2.IH"(2) [OF False _ True this, of sj] dm True
        show ?thesis by (auto simp add: strip_newlines_simps)
      next
        case nl: False
        with False dm "2.prems" show ?thesis by simp
      qed
    qed
  qed
qed

lemma quantum_scan_strip_Inl:
  "quantum_scan dbuf si src = Inl e \<Longrightarrow>
     \<exists>e'. quantum_scan dbuf sj (strip_newlines src) = Inl e'"
proof (induction dbuf si src arbitrary: sj rule: quantum_scan.induct)
  case (1 dbuf si)
  then show ?case by (auto simp: strip_newlines_simps split: if_splits)
next
  case (2 dbuf si c src)
  show ?case
  proof (cases "length dbuf = 4")
    case True
    with "2.prems" show ?thesis by simp
  next
    case False
    show ?thesis
    proof (cases "decodeMap c \<noteq> 0xFF")
      case True
      then have nn: "c \<noteq> 0x0A" "c \<noteq> 0x0D" using decodeMap_newline by auto
      from True False "2.prems"
      have "quantum_scan (dbuf @ [decodeMap c]) (si + 1) src = Inl e" by simp
      from "2.IH"(1) [OF False True this, of "sj + 1"] nn True False
      show ?thesis by (simp add: strip_newlines_simps)
    next
      case dm: False
      show ?thesis
      proof (cases "c = 0x0A \<or> c = 0x0D")
        case True
        with False dm "2.prems" have "quantum_scan dbuf (si + 1) src = Inl e" by simp
        from "2.IH"(2) [OF False _ True this, of sj] dm True
        show ?thesis by (auto simp add: strip_newlines_simps)
      next
        case nl: False
        with False dm show ?thesis by (simp add: strip_newlines_simps)
      qed
    qed
  qed
qed

lemma decodeQuantum_strip_Inr:
  assumes "decodeQuantum si src = Inr (out, rest, si')"
  shows "\<exists>sj'. decodeQuantum sj (strip_newlines src) = Inr (out, strip_newlines rest, sj')"
proof -
  from assms obtain d where scan: "quantum_scan [] si src = Inr (d, rest, si')"
    by (auto simp: decodeQuantum_def Let_def split: sum.splits)
  from quantum_scan_strip_Inr [OF scan, of sj] obtain sj'
    where "quantum_scan [] sj (strip_newlines src) = Inr (d, strip_newlines rest, sj')" by blast
  with assms scan show ?thesis
    by (auto simp: decodeQuantum_def Let_def)
qed

lemma decodeQuantum_strip_Inl:
  assumes "decodeQuantum si src = Inl e"
  shows "\<exists>e'. decodeQuantum sj (strip_newlines src) = Inl e'"
proof -
  from assms have "quantum_scan [] si src = Inl e"
    by (auto simp: decodeQuantum_def Let_def split: sum.splits)
  from quantum_scan_strip_Inl [OF this, of sj] show ?thesis
    by (auto simp: decodeQuantum_def)
qed

lemma decodeQuantum_Nil: "decodeQuantum sj [] = Inr ([], [], sj)"
  by (simp add: decodeQuantum_def)

lemma Decode_strip:
  "Decode si src = Inr out \<longleftrightarrow> Decode sj (strip_newlines src) = Inr out"
proof (induction si src arbitrary: sj out rule: Decode.induct)
  case (1 si src)
  show ?case
  proof (cases "src = []")
    case True
    then show ?thesis by (simp add: Decode.simps strip_newlines_simps)
  next
    case ne: False
    show ?thesis
    proof (cases "decodeQuantum si src")
      case (Inl e)
      from decodeQuantum_strip_Inl [OF Inl, of sj] obtain e'
        where q: "decodeQuantum sj (strip_newlines src) = Inl e'" by blast
      then have "strip_newlines src \<noteq> []" by (auto simp: decodeQuantum_Nil)
      with q have "Decode sj (strip_newlines src) = Inl e'"
        by (simp add: Decode.simps [of sj "strip_newlines src"])
      moreover from ne Inl have "Decode si src = Inl e" by (simp add: Decode.simps [of si src])
      ultimately show ?thesis by simp
    next
      case (Inr r)
      obtain o1 rest si' where r: "r = (o1, rest, si')" by (cases r)
      from decodeQuantum_strip_Inr [OF Inr [unfolded r], of sj] obtain sj'
        where q: "decodeQuantum sj (strip_newlines src) = Inr (o1, strip_newlines rest, sj')" by blast
      note IH = "1.IH" [OF ne Inr r [symmetric] refl, of _ sj']
      have L: "Decode si src = (case Decode si' rest of Inl e \<Rightarrow> Inl e | Inr ys \<Rightarrow> Inr (o1 @ ys))"
        using ne Inr r by (simp add: Decode.simps [of si src])
      show ?thesis
      proof (cases "strip_newlines src = []")
        case True
        with q have o1: "o1 = []" and sr: "strip_newlines rest = []" by (simp_all add: decodeQuantum_Nil)
        have "Decode sj' [] = Inr []" by (simp add: Decode.simps)
        with IH sr have "Decode si' rest = Inr []" by simp
        with L o1 True show ?thesis by (simp add: Decode.simps [of sj "[]"])
      next
        case False
        with q have R: "Decode sj (strip_newlines src) =
            (case Decode sj' (strip_newlines rest) of Inl e \<Rightarrow> Inl e | Inr ys \<Rightarrow> Inr (o1 @ ys))"
          by (simp add: Decode.simps [of sj "strip_newlines src"])
        show ?thesis
        proof (cases "Decode si' rest")
          case dl: (Inl e)
          have "\<exists>e'. Decode sj' (strip_newlines rest) = Inl e'"
          proof (cases "Decode sj' (strip_newlines rest)")
            case (Inl e')
            then show ?thesis by blast
          next
            case (Inr ys)
            with IH [of ys] dl show ?thesis by simp
          qed
          then obtain e' where "Decode sj' (strip_newlines rest) = Inl e'" by blast
          with dl show ?thesis unfolding L R by simp
        next
          case dr: (Inr ys)
          with IH [of ys] have "Decode sj' (strip_newlines rest) = Inr ys" by simp
          with dr show ?thesis unfolding L R by simp
        qed
      qed
    qed
  qed
qed

lemma AppendDecode_strip:
  "AppendDecode src = Inr out \<longleftrightarrow> AppendDecode (strip_newlines src) = Inr out"
  unfolding AppendDecode_def by (rule Decode_strip)

lemma significant_strip: "significant src = length (strip_newlines src)"
  by (simp add: significant_def strip_newlines_def)

lemma writeOutput_stdout:
  "fst (writeOutput E filePath data w) = None \<Longrightarrow>
     stdout (snd (writeOutput E filePath data w)) = stdout w @ data"
  by (auto simp: writeOutput_def Let_def split: option.splits if_splits)

lemma decode_bang_bytes: "AppendDecode [0x21, 0x21, 0x21] = Inl (CorruptInputError 0)"
  by code_simp

lemma decode_bang: "AppendDecode (map of_char ''!!!'') = Inl (CorruptInputError 0)"
  by (simp add: decode_bang_bytes)


section \<open>The scenarios of the specification\<close>

text \<open>\<open>base64 -t "hello"\<close> prints \<open>aGVsbG8\<close>, and \<open>base64 -d -t "aGVsbG8"\<close> prints \<open>hello\<close>.\<close>

lemma encode_hello: "AppendEncode (map of_char ''hello'') = map of_char ''aGVsbG8''"
  by code_simp

lemma decode_hello: "AppendDecode (map of_char ''aGVsbG8'') = Inr (map of_char ''hello'')"
  by code_simp

lemma Error_example:
  "Error (Wrap (CorruptInputError 12) ''failed to encode content'')
     = ''failed to encode content: illegal base64 data at input byte 12''"
  by code_simp

section \<open>The properties\<close>

text \<open>
  C1. For every byte sequence \<open>B\<close>, decoding the result of encoding \<open>B\<close> with the codec
  of the base64 command returns \<open>B\<close>.
\<close>

theorem base64_roundtrip: "AppendDecode (AppendEncode B) = Inr B"
  by (simp add: AppendDecode_def AppendEncode_def Decode_Encode)

text \<open>
  C2, as the code has it. When the decode flag and the encode flag are both false, the
  base64 command hands the empty byte sequence to the output writer, whatever the
  resolved input is: \<open>output\<close> is never assigned.
\<close>

theorem b64_neither_flag:
  "\<not> decode F \<Longrightarrow> \<not> encode F \<Longrightarrow>
     b64_output F input = Inr []
     \<and> (readInput E (inputFile F) (inputText F) = (cs, Inr input) \<longrightarrow>
          b64_Run F E w = writeOutput E (outputPath F) [] (w\<lparr>calls := calls w @ cs\<rparr>))"
  by (simp add: b64_output_def b64_Run_def)

text \<open>The theorem at the input text \<open>a\<close> with \<open>-e=false\<close>.\<close>

theorem b64_neither_flag_witness:
  "\<not> decode (default_flags\<lparr>encode := False, inputText := ''a''\<rparr>)
   \<and> \<not> encode (default_flags\<lparr>encode := False, inputText := ''a''\<rparr>)
   \<and> readInput example_env [] ''a'' = ([], Inr [0x61])
   \<and> b64_output (default_flags\<lparr>encode := False, inputText := ''a''\<rparr>) [0x61] = Inr []
   \<and> b64_Run (default_flags\<lparr>encode := False, inputText := ''a''\<rparr>) example_env empty_world
       = writeOutput example_env [] [] empty_world"
  using b64_neither_flag [of "default_flags\<lparr>encode := False, inputText := ''a''\<rparr>" "[0x61]"
      example_env "[]" empty_world]
  by (simp add: default_flags_def readInput_def empty_world_def)

text \<open>
  C2 as stated fails there: the resolved input is the byte \<open>a\<close>, and what reaches the
  output writer and standard output is empty.
\<close>

theorem b64_neither_flag_counterexample:
  "\<not> decode (default_flags\<lparr>encode := False, inputText := ''a''\<rparr>)
   \<and> \<not> encode (default_flags\<lparr>encode := False, inputText := ''a''\<rparr>)
   \<and> readInput example_env [] ''a'' = ([], Inr [0x61])
   \<and> b64_output (default_flags\<lparr>encode := False, inputText := ''a''\<rparr>) [0x61] \<noteq> Inr [0x61]
   \<and> stdout (snd (b64_Run (default_flags\<lparr>encode := False, inputText := ''a''\<rparr>)
         example_env empty_world)) = []"
  by (simp add: default_flags_def readInput_def empty_world_def b64_output_def b64_Run_def
      writeOutput_def example_env_def)

text \<open>
  C3. With the v4 flag false, the v7 flag true and the crypto flag true, the code calls
  \<open>uuid.NewV4CryptoString\<close>: the output is what the version 4 generator returns, not a
  version 7 UUID.
\<close>

theorem uuid_v7_crypto_generator:
  "\<not> v4 F \<Longrightarrow> v7 F \<Longrightarrow> crypto F \<Longrightarrow>
     uuid_generate F E = uuid_NewV4CryptoString E
     \<and> (uuid_NewV4CryptoString E = Inr s \<longrightarrow>
          uuid_Run F E w = writeOutput E [] (map of_char s) w)"
  by (simp add: uuid_generate_def uuid_Run_def)

text \<open>
  In the example environment the version 4 generator returns a UUID whose version
  nibble (the character at index 14) is \<open>4\<close>, and that string is what is printed.
\<close>

theorem uuid_v7_crypto_generator_witness:
  "\<not> v4 (default_flags\<lparr>v4 := False, crypto := True\<rparr>)
   \<and> v7 (default_flags\<lparr>v4 := False, crypto := True\<rparr>)
   \<and> crypto (default_flags\<lparr>v4 := False, crypto := True\<rparr>)
   \<and> uuid_generate (default_flags\<lparr>v4 := False, crypto := True\<rparr>) example_env
       = Inr ''f47ac10b-58cc-4372-a567-0e02b2c3d479''
   \<and> stdout (snd (uuid_Run (default_flags\<lparr>v4 := False, crypto := True\<rparr>)
        example_env empty_world)) = map of_char ''f47ac10b-58cc-4372-a567-0e02b2c3d479''
   \<and> ''f47ac10b-58cc-4372-a567-0e02b2c3d479'' ! 14 = CHR ''4''
   \<and> uuid_MustV7PseudoString example_env ! 14 = CHR ''7''"
  using uuid_v7_crypto_generator [of "default_flags\<lparr>v4 := False, crypto := True\<rparr>"
      example_env "''f47ac10b-58cc-4372-a567-0e02b2c3d479''" empty_world]
  by (simp add: default_flags_def writeOutput_def example_env_def empty_world_def)

text \<open>
  C4. The input resolver takes the first source in the order text, file, standard
  input: a non-empty text is returned as its bytes and no call is made, so the file is
  not opened; with an empty text and a file path the result is that of reading the file
  and nothing else is consulted; with neither, and standard input not a character
  device, the result is that of reading standard input, whatever the clipboard holds.
\<close>

theorem readInput_priority:
  "(text \<noteq> [] \<longrightarrow> readInput E filePath text = ([], Inr (map of_char text)))
   \<and> (text = [] \<and> filePath \<noteq> [] \<longrightarrow>
        readInput E filePath text =
          ([CallReadFile filePath],
           case os_ReadFile E filePath of
             Inl err \<Rightarrow> Inl (Wrapf_s err ''failed to read file '' filePath)
           | Inr fileContent \<Rightarrow> Inr fileContent))
   \<and> (text = [] \<and> filePath = [] \<and> Stdin_Stat E = Inr mode \<and> mode AND ModeCharDevice = 0 \<longrightarrow>
        readInput (E\<lparr>clipboard_Read := clip\<rparr>) filePath text =
          ([CallStdinStat, CallStdinReadAll],
           case io_ReadAll_Stdin E of
             Inl err \<Rightarrow> Inl (Wrap err ''failed to read text from stdin'')
           | Inr stdinContent \<Rightarrow> Inr stdinContent))"
  by (simp add: readInput_def)

text \<open>
  The theorem in the example environment: text \<open>hi\<close> next to the file \<open>in.txt\<close>, the
  file alone, and a piped standard input next to a clipboard that holds \<open>z\<close>.
\<close>

theorem readInput_priority_witness:
  "''hi'' \<noteq> [] \<and> readInput example_env ''in.txt'' ''hi'' = ([], Inr [0x68, 0x69])
   \<and> ''in.txt'' \<noteq> [] \<and> readInput example_env ''in.txt'' [] = ([CallReadFile ''in.txt''], Inr [0x68, 0x69])
   \<and> Stdin_Stat (example_env\<lparr>Stdin_Stat := Inr 0\<rparr>) = Inr 0 \<and> (0 :: 32 word) AND ModeCharDevice = 0
   \<and> readInput (example_env\<lparr>Stdin_Stat := Inr 0, clipboard_Read := Inr [0x7A]\<rparr>) [] []
        = ([CallStdinStat, CallStdinReadAll], Inr [0x51, 0x51, 0x0A])"
  using readInput_priority [of "''hi''" example_env "''in.txt''" 0 "Inr [0x7A]"]
    readInput_priority [of "[]" example_env "''in.txt''" 0 "Inr [0x7A]"]
    readInput_priority [of "[]" "example_env\<lparr>Stdin_Stat := Inr 0\<rparr>" "[]" 0 "Inr [0x7A]"]
  by (simp add: example_env_def)

text \<open>
  C5. With an empty text, no file path, standard input a character device and a
  clipboard that is read without error and is empty, the input resolver returns the
  error \<open>no input provided\<close>.
\<close>

theorem readInput_no_input:
  "text = [] \<Longrightarrow> filePath = [] \<Longrightarrow> Stdin_Stat E = Inr mode \<Longrightarrow> mode AND ModeCharDevice \<noteq> 0
     \<Longrightarrow> clipboard_Read E = Inr [] \<Longrightarrow>
   readInput E filePath text = ([CallStdinStat, CallClipboardRead], Inl (New ''no input provided''))"
  by (simp add: readInput_def)

text \<open>The theorem in the example environment, whose clipboard is empty.\<close>

theorem readInput_no_input_witness:
  "Stdin_Stat example_env = Inr ModeCharDevice \<and> ModeCharDevice AND ModeCharDevice \<noteq> 0
   \<and> clipboard_Read example_env = Inr []
   \<and> readInput example_env [] [] = ([CallStdinStat, CallClipboardRead], Inl (New ''no input provided''))"
  using readInput_no_input [of "[]" "[]" example_env ModeCharDevice]
  by (simp add: example_env_def ModeCharDevice_def)

text \<open>
  C6. For every input, the output of the encoder contains no \<open>=\<close> (61), no line feed
  (10) and no carriage return (13); and when the decode flag is false and the encode
  flag is true, the base64 command hands exactly the encoder's output to the output
  writer, so that is what a successful run appends to standard output.
\<close>

theorem encode_no_padding_no_newline:
  "0x3D \<notin> set (AppendEncode B) \<and> 0x0A \<notin> set (AppendEncode B) \<and> 0x0D \<notin> set (AppendEncode B)
   \<and> (\<not> decode F \<and> encode F \<longrightarrow> b64_output F B = Inr (AppendEncode B))
   \<and> (\<not> decode F \<and> encode F \<and> readInput E (inputFile F) (inputText F) = (cs, Inr B) \<longrightarrow>
        b64_Run F E w = writeOutput E (outputPath F) (AppendEncode B) (w\<lparr>calls := calls w @ cs\<rparr>)
        \<and> (fst (b64_Run F E w) = None \<longrightarrow>
              stdout (snd (b64_Run F E w)) = stdout w @ AppendEncode B
              \<and> 0x3D \<notin> set (drop (length (stdout w)) (stdout (snd (b64_Run F E w))))
              \<and> 0x0A \<notin> set (drop (length (stdout w)) (stdout (snd (b64_Run F E w))))
              \<and> 0x0D \<notin> set (drop (length (stdout w)) (stdout (snd (b64_Run F E w))))))"
proof -
  have clean: "0x3D \<notin> set (AppendEncode B) \<and> 0x0A \<notin> set (AppendEncode B)
      \<and> 0x0D \<notin> set (AppendEncode B)"
    using Encode_alphabet [of B] pad_not_alphabet newline_not_alphabet
    unfolding AppendEncode_def by blast
  have out: "\<not> decode F \<and> encode F \<longrightarrow> b64_output F B = Inr (AppendEncode B)"
    by (simp add: b64_output_def)
  have run: "b64_Run F E w
      = writeOutput E (outputPath F) (AppendEncode B) (w\<lparr>calls := calls w @ cs\<rparr>)"
    if "\<not> decode F" "encode F" "readInput E (inputFile F) (inputText F) = (cs, Inr B)"
    using that by (simp add: b64_Run_def b64_output_def)
  have std: "stdout (snd (b64_Run F E w)) = stdout w @ AppendEncode B"
    if "\<not> decode F" "encode F" "readInput E (inputFile F) (inputText F) = (cs, Inr B)"
      "fst (b64_Run F E w) = None"
    using that(4) writeOutput_stdout [of E "outputPath F" "AppendEncode B" "w\<lparr>calls := calls w @ cs\<rparr>"]
    unfolding run [OF that(1,2,3)] by simp
  from clean out run std show ?thesis by simp
qed

text \<open>The theorem at the command's defaults and the text \<open>hello\<close>: \<open>aGVsbG8\<close> is printed.\<close>

theorem encode_no_padding_no_newline_witness:
  "\<not> decode (default_flags\<lparr>inputText := ''hello''\<rparr>)
   \<and> encode (default_flags\<lparr>inputText := ''hello''\<rparr>)
   \<and> readInput example_env [] ''hello'' = ([], Inr [0x68, 0x65, 0x6C, 0x6C, 0x6F])
   \<and> b64_output (default_flags\<lparr>inputText := ''hello''\<rparr>) [0x68, 0x65, 0x6C, 0x6C, 0x6F]
       = Inr [0x61, 0x47, 0x56, 0x73, 0x62, 0x47, 0x38]
   \<and> fst (b64_Run (default_flags\<lparr>inputText := ''hello''\<rparr>) example_env empty_world) = None
   \<and> stdout (snd (b64_Run (default_flags\<lparr>inputText := ''hello''\<rparr>) example_env empty_world))
       = [0x61, 0x47, 0x56, 0x73, 0x62, 0x47, 0x38]
   \<and> (0x3D :: byte) \<notin> set [0x61, 0x47, 0x56, 0x73, 0x62, 0x47, 0x38]"
proof -
  have e: "AppendEncode [0x68, 0x65, 0x6C, 0x6C, 0x6F] = [0x61, 0x47, 0x56, 0x73, 0x62, 0x47, 0x38]"
    by code_simp
  show ?thesis
    using encode_no_padding_no_newline [of "[0x68, 0x65, 0x6C, 0x6C, 0x6F]"
        "default_flags\<lparr>inputText := ''hello''\<rparr>" example_env "[]" empty_world]
    by (simp add: default_flags_def e readInput_def writeOutput_def example_env_def
        empty_world_def)
qed

text \<open>
  C7, as the code has it. The decoder skips line feeds and carriage returns: an input
  decodes to the bytes that the input without them decodes to, and fails exactly when
  that one fails. It returns an error for every input that contains a byte other than
  the 64 characters of the alphabet, line feed and carriage return, and for every input
  in which the number of bytes other than line feeds and carriage returns is 1 modulo 4.
  Decoding \<open>!!!\<close> fails, and the process that is asked to decode the text \<open>!!!\<close> exits
  with code 2.
\<close>

theorem decode_rejects:
  "(AppendDecode src = Inr out \<longleftrightarrow> AppendDecode (strip_newlines src) = Inr out)
   \<and> ((\<exists>e. AppendDecode src = Inl e) \<longleftrightarrow> (\<exists>e. AppendDecode (strip_newlines src) = Inl e))
   \<and> ((\<exists>c\<in>set src. c \<notin> set (map of_char encodeStd) \<and> c \<noteq> 0x0A \<and> c \<noteq> 0x0D) \<longrightarrow>
      (\<exists>e. AppendDecode src = Inl e))
   \<and> (significant src mod 4 = 1 \<longrightarrow> (\<exists>e. AppendDecode src = Inl e))
   \<and> significant src = length (strip_newlines src)
   \<and> AppendDecode (map of_char ''!!!'') = Inl (CorruptInputError 0)
   \<and> (flag_Parse E (args E) = Parsed (cmdName # cmdArgs)
        \<and> (cmdName = ''base64'' \<or> cmdName = ''b64'')
        \<and> parse ''base64'' cmdArgs default_flags = Inr F \<and> decode F \<and> inputText F = ''!!!'' \<longrightarrow>
        fst (main parse E w) = 2)"
proof -
  have s1: "AppendDecode src = Inr out \<longleftrightarrow> AppendDecode (strip_newlines src) = Inr out"
    by (rule AppendDecode_strip)
  have s2: "(\<exists>e. AppendDecode src = Inl e) \<longleftrightarrow> (\<exists>e. AppendDecode (strip_newlines src) = Inl e)"
  proof
    assume "\<exists>e. AppendDecode src = Inl e"
    then obtain e where l: "AppendDecode src = Inl e" by blast
    show "\<exists>e. AppendDecode (strip_newlines src) = Inl e"
    proof (cases "AppendDecode (strip_newlines src)")
      case (Inl e')
      then show ?thesis by blast
    next
      case (Inr ys)
      with AppendDecode_strip [of src ys] l show ?thesis by simp
    qed
  next
    assume "\<exists>e. AppendDecode (strip_newlines src) = Inl e"
    then obtain e where l: "AppendDecode (strip_newlines src) = Inl e" by blast
    show "\<exists>e. AppendDecode src = Inl e"
    proof (cases "AppendDecode src")
      case (Inl e')
      then show ?thesis by blast
    next
      case (Inr ys)
      with AppendDecode_strip [of src ys] l show ?thesis by simp
    qed
  qed
  have a: "(\<exists>c\<in>set src. c \<notin> set (map of_char encodeStd) \<and> c \<noteq> 0x0A \<and> c \<noteq> 0x0D) \<longrightarrow>
      (\<exists>e. AppendDecode src = Inl e)"
    unfolding AppendDecode_def using Decode_rejected outside_rejected by blast
  have b: "significant src mod 4 = 1 \<longrightarrow> (\<exists>e. AppendDecode src = Inl e)"
    unfolding AppendDecode_def using Decode_count by blast
  have c: "flag_Parse E (args E) = Parsed (cmdName # cmdArgs)
        \<and> (cmdName = ''base64'' \<or> cmdName = ''b64'')
        \<and> parse ''base64'' cmdArgs default_flags = Inr F \<and> decode F \<and> inputText F = ''!!!'' \<longrightarrow>
        fst (main parse E w) = 2"
    by (auto simp: main_def run_def newB64Command_def b64_Run_def readInput_def
        b64_output_def decode_bang_bytes)
  show ?thesis
    by (intro conjI s1 s2 a b c decode_bang significant_strip)
qed

text \<open>
  The theorem at \<open>QQ\<close> followed by a carriage return and a line feed, which decodes to
  \<open>A\<close> as \<open>QQ\<close> does; at \<open>!\<close>, a byte outside the alphabet; at \<open>QUJDQ\<close>, five
  characters of the alphabet; and at the command line \<open>base64 -d -t "!!!"\<close>.
\<close>

theorem decode_rejects_witness:
  "strip_newlines [0x51, 0x51, 0x0D, 0x0A] = [0x51, 0x51]
   \<and> AppendDecode [0x51, 0x51] = Inr [0x41]
   \<and> AppendDecode [0x51, 0x51, 0x0D, 0x0A] = Inr [0x41]
   \<and> (0x21 :: byte) \<in> set [0x21] \<and> (0x21 :: byte) \<notin> set (map of_char encodeStd)
   \<and> (\<exists>e. AppendDecode [0x21] = Inl e)
   \<and> set [0x51 :: byte, 0x55, 0x4A, 0x44, 0x51] \<subseteq> set (map of_char encodeStd)
   \<and> significant [0x51, 0x55, 0x4A, 0x44, 0x51] mod 4 = 1
   \<and> (\<exists>e. AppendDecode [0x51, 0x55, 0x4A, 0x44, 0x51] = Inl e)
   \<and> flag_Parse (example_env\<lparr>args := [''base64'', ''-d'', ''-t'', ''!!!'']\<rparr>)
        (args (example_env\<lparr>args := [''base64'', ''-d'', ''-t'', ''!!!'']\<rparr>))
       = Parsed [''base64'', ''-d'', ''-t'', ''!!!'']
   \<and> example_parse ''base64'' [''-d'', ''-t'', ''!!!''] default_flags
       = Inr (default_flags\<lparr>decode := True, inputText := ''!!!''\<rparr>)
   \<and> fst (main example_parse (example_env\<lparr>args := [''base64'', ''-d'', ''-t'', ''!!!'']\<rparr>)
        empty_world) = 2"
proof -
  have q: "AppendDecode [0x51, 0x51] = Inr [0x41]"
    by code_simp
  show ?thesis
    using q decode_rejects [where src = "[0x51, 0x51, 0x0D, 0x0A]" and out = "[0x41]"]
      decode_rejects [where src = "[0x21]"]
      decode_rejects [where src = "[0x51, 0x55, 0x4A, 0x44, 0x51]"
        and E = "example_env\<lparr>args := [''base64'', ''-d'', ''-t'', ''!!!'']\<rparr>"
        and cmdName = "''base64''" and cmdArgs = "[''-d'', ''-t'', ''!!!'']"
        and parse = example_parse and F = "default_flags\<lparr>decode := True, inputText := ''!!!''\<rparr>"
        and w = empty_world]
    by (simp add: example_env_def example_parse_def default_flags_def significant_def
        strip_newlines_def encodeStd_def)
qed

text \<open>
  C7 as stated fails on line breaks: \<open>QQ\<close> followed by a line feed contains a byte
  outside the alphabet and decodes to \<open>A\<close>, and so does \<open>QQ\<close> followed by a carriage
  return and a line feed; \<open>QUJD\<close> followed by a line feed has length 5 and decodes to
  \<open>ABC\<close>.
\<close>

theorem decode_rejects_counterexample:
  "(0x0A :: byte) \<in> set [0x51, 0x51, 0x0A] \<and> (0x0A :: byte) \<notin> set (map of_char encodeStd)
   \<and> AppendDecode [0x51, 0x51, 0x0A] = Inr [0x41]
   \<and> (0x0D :: byte) \<in> set [0x51, 0x51, 0x0D, 0x0A] \<and> (0x0D :: byte) \<notin> set (map of_char encodeStd)
   \<and> AppendDecode [0x51, 0x51, 0x0D, 0x0A] = Inr [0x41]
   \<and> length [0x51 :: byte, 0x55, 0x4A, 0x44, 0x0A] mod 4 = 1
   \<and> AppendDecode [0x51, 0x55, 0x4A, 0x44, 0x0A] = Inr [0x41, 0x42, 0x43]"
proof -
  have "AppendDecode [0x51, 0x51, 0x0A] = Inr [0x41]"
    by code_simp
  moreover have "AppendDecode [0x51, 0x51, 0x0D, 0x0A] = Inr [0x41]"
    by code_simp
  moreover have "AppendDecode [0x51, 0x55, 0x4A, 0x44, 0x0A] = Inr [0x41, 0x42, 0x43]"
    by code_simp
  ultimately show ?thesis
    by (simp add: encodeStd_def)
qed



text \<open>
  C9, as the code has it. When the path is non-empty the bytes are first written to that
  file, and a failure of that write is returned as a wrapped error without anything
  being copied to standard output. Otherwise the bytes are copied to standard output,
  whether the path is empty or not; a failure of the copy is returned as a wrapped
  error. After a file write that succeeded the file of a non-empty path holds exactly
  the bytes, whether the copy succeeds or fails; with an empty path no file is touched.
\<close>

theorem writeOutput_effects:
  "(filePath \<noteq> [] \<and> os_WriteFile E filePath data = Some err \<longrightarrow>
      writeOutput E filePath data w
        = (Some (Wrapf_s err ''failed to write data to file '' filePath), w))
   \<and> ((filePath = [] \<or> os_WriteFile E filePath data = None) \<and> Stdout_Write E data = None \<longrightarrow>
        fst (writeOutput E filePath data w) = None
        \<and> stdout (snd (writeOutput E filePath data w)) = stdout w @ data
        \<and> (filePath \<noteq> [] \<longrightarrow> files (snd (writeOutput E filePath data w)) filePath = Some data)
        \<and> (filePath = [] \<longrightarrow> files (snd (writeOutput E filePath data w)) = files w))
   \<and> ((filePath = [] \<or> os_WriteFile E filePath data = None) \<and> Stdout_Write E data = Some err \<longrightarrow>
        fst (writeOutput E filePath data w)
          = Some (Wrap err ''failed to write output to stdout'')
        \<and> stdout (snd (writeOutput E filePath data w)) = stdout w
        \<and> (filePath \<noteq> [] \<longrightarrow> files (snd (writeOutput E filePath data w)) filePath = Some data)
        \<and> (filePath = [] \<longrightarrow> files (snd (writeOutput E filePath data w)) = files w))
   \<and> (filePath \<noteq> [] \<and> os_WriteFile E filePath data = None \<longrightarrow>
        files (snd (writeOutput E filePath data w)) = (files w)(filePath \<mapsto> data))
   \<and> (filePath = [] \<longrightarrow> files (snd (writeOutput E filePath data w)) = files w)"
  by (auto simp: writeOutput_def Let_def split: option.splits)

text \<open>
  The theorem in the example environment: a write to \<open>/\<close>, which fails; a write to
  \<open>out.txt\<close>; a copy that fails with an empty path; and a write to \<open>out.txt\<close> followed
  by a copy that fails, after which the file holds the bytes.
\<close>

theorem writeOutput_effects_witness:
  "''/'' \<noteq> [] \<and> os_WriteFile example_env ''/'' [0x61] = Some (External ''is a directory'')
   \<and> writeOutput example_env ''/'' [0x61] empty_world
       = (Some (Wrap (External ''is a directory'') ''failed to write data to file /''), empty_world)
   \<and> os_WriteFile example_env ''out.txt'' [0x61] = None \<and> Stdout_Write example_env [0x61] = None
   \<and> writeOutput example_env ''out.txt'' [0x61] empty_world
       = (None, empty_world\<lparr>files := [''out.txt'' \<mapsto> [0x61]], stdout := [0x61]\<rparr>)
   \<and> Stdout_Write (example_env\<lparr>Stdout_Write := (\<lambda>d. Some (External ''broken pipe''))\<rparr>) [0x61]
       = Some (External ''broken pipe'')
   \<and> fst (writeOutput (example_env\<lparr>Stdout_Write := (\<lambda>d. Some (External ''broken pipe''))\<rparr>)
        [] [0x61] empty_world)
       = Some (Wrap (External ''broken pipe'') ''failed to write output to stdout'')
   \<and> os_WriteFile (example_env\<lparr>Stdout_Write := (\<lambda>d. Some (External ''broken pipe''))\<rparr>)
        ''out.txt'' [0x61] = None
   \<and> writeOutput (example_env\<lparr>Stdout_Write := (\<lambda>d. Some (External ''broken pipe''))\<rparr>)
        ''out.txt'' [0x61] empty_world
       = (Some (Wrap (External ''broken pipe'') ''failed to write output to stdout''),
          empty_world\<lparr>files := [''out.txt'' \<mapsto> [0x61]]\<rparr>)"
  using writeOutput_effects [of "''/''" example_env "[0x61]" "External ''is a directory''" empty_world]
    writeOutput_effects [of "''out.txt''" example_env "[0x61]" "External ''is a directory''" empty_world]
    writeOutput_effects [of "[]" "example_env\<lparr>Stdout_Write := (\<lambda>d. Some (External ''broken pipe''))\<rparr>"
      "[0x61]" "External ''broken pipe''" empty_world]
    writeOutput_effects [of "''out.txt''"
      "example_env\<lparr>Stdout_Write := (\<lambda>d. Some (External ''broken pipe''))\<rparr>"
      "[0x61]" "External ''broken pipe''" empty_world]
  by (simp add: example_env_def empty_world_def Wrapf_s_def writeOutput_def)

text \<open>
  C9 as stated fails on a failed file write: the call returns before the copy, and
  standard output does not receive the bytes.
\<close>

theorem writeOutput_counterexample:
  "os_WriteFile example_env ''/'' [0x61] = Some (External ''is a directory'')
   \<and> stdout (snd (writeOutput example_env ''/'' [0x61] empty_world)) = stdout empty_world
   \<and> stdout (snd (writeOutput example_env ''/'' [0x61] empty_world)) \<noteq> stdout empty_world @ [0x61]"
  by (simp add: example_env_def empty_world_def writeOutput_def)

text \<open>
  C10. When the first positional argument is \<open>b64\<close>, the dispatcher parses the
  remaining arguments with the flag set of the base64 command and runs the base64
  command: the loop stops at the first match, and the base64 command stands before the
  uuid command, which has the same short name.
\<close>

theorem b64_short_name_runs_base64:
  "flag_Parse E (args E) = Parsed (''b64'' # cmdArgs) \<Longrightarrow>
     run [newB64Command parse, newUuidCommand parse] F E w =
       (case parse ''base64'' cmdArgs F of
          Inl code \<Rightarrow> (Inl code, w)
        | Inr F' \<Rightarrow> (case b64_Run F' E w of (r, w') \<Rightarrow> (Inr r, w')))"
  by (simp add: run_def newB64Command_def split: sum.splits)

text \<open>The theorem at the command line \<open>b64 -t hello\<close>: \<open>aGVsbG8\<close> is printed.\<close>

theorem b64_short_name_runs_base64_witness:
  "flag_Parse (example_env\<lparr>args := [''b64'', ''-t'', ''hello'']\<rparr>)
      (args (example_env\<lparr>args := [''b64'', ''-t'', ''hello'']\<rparr>)) = Parsed [''b64'', ''-t'', ''hello'']
   \<and> run [newB64Command example_parse, newUuidCommand example_parse] default_flags
        (example_env\<lparr>args := [''b64'', ''-t'', ''hello'']\<rparr>) empty_world
      = (Inr None, empty_world\<lparr>stdout := map of_char ''aGVsbG8''\<rparr>)"
proof -
  have e: "AppendEncode [0x68, 0x65, 0x6C, 0x6C, 0x6F] = [0x61, 0x47, 0x56, 0x73, 0x62, 0x47, 0x38]"
    by code_simp
  show ?thesis
    using b64_short_name_runs_base64 [of "example_env\<lparr>args := [''b64'', ''-t'', ''hello'']\<rparr>"
      "[''-t'', ''hello'']" example_parse default_flags empty_world]
    by (simp add: example_env_def example_parse_def default_flags_def b64_Run_def readInput_def
        b64_output_def e writeOutput_def empty_world_def)
qed

end
